theory Spec2Isabelle
  imports Complex_Main "HOL-Library.Sublist"
begin

section \<open>JavaScript strings\<close>

text \<open>
  A JavaScript string is a sequence of UTF-16 code units. The model is \<open>string\<close>, one
  \<open>char\<close> per code unit, for the code units below 256 (ASCII and Latin-1): \<open>length\<close> is
  \<open>.length\<close>, and the built-ins below are the ECMAScript ones on that range.
\<close>

text \<open>
  \<open>String.prototype.trim\<close> strips WhiteSpace and LineTerminator code points. Below 256
  these are U+0009 to U+000D, U+0020 and U+00A0.
\<close>

definition isWhiteSpace :: "char \<Rightarrow> bool" where
  "isWhiteSpace c =
     (let n = (of_char c :: nat) in (9 \<le> n \<and> n \<le> 13) \<or> n = 32 \<or> n = 160)"

text \<open>
  \<open>String.prototype.toLowerCase\<close>: A to Z, and the Latin-1 capitals U+00C0 to U+00DE
  (U+00D7, the multiplication sign, apart) move up by 32; every other code unit below
  256 stays.
\<close>

definition toLowerChar :: "char \<Rightarrow> char" where
  "toLowerChar c =
     (let n = (of_char c :: nat)
      in if (65 \<le> n \<and> n \<le> 90) \<or> (192 \<le> n \<and> n \<le> 222 \<and> n \<noteq> 215)
         then char_of (n + 32) else c)"

definition toLowerCase :: "string \<Rightarrow> string" where
  "toLowerCase s = map toLowerChar s"

definition trimStart :: "string \<Rightarrow> string" where
  "trimStart s = dropWhile isWhiteSpace s"

definition trimEnd :: "string \<Rightarrow> string" where
  "trimEnd s = rev (dropWhile isWhiteSpace (rev s))"

definition trim :: "string \<Rightarrow> string" where
  "trim s = trimEnd (trimStart s)"

text \<open>
  \<open>s.split(sep)\<close> for a one-character separator: the pieces between the separators,
  empty pieces kept; the empty string splits into one empty piece.
\<close>

fun split_str :: "char \<Rightarrow> string \<Rightarrow> string list" where
  "split_str sep [] = [[]]"
| "split_str sep (c # cs) =
     (if c = sep then [] # split_str sep cs
      else (case split_str sep cs of
              [] \<Rightarrow> [[c]]
            | p # ps \<Rightarrow> (c # p) # ps))"

text \<open>\<open>xs.join(sep)\<close>.\<close>

fun join_str :: "string \<Rightarrow> string list \<Rightarrow> string" where
  "join_str sep [] = []"
| "join_str sep [x] = x"
| "join_str sep (x # y # ys) = x @ sep @ join_str sep (y # ys)"

text \<open>
  \<open>s.slice(start, end)\<close> on integers: a negative index counts from the end, and both
  indices are clamped to the string.
\<close>

definition slice :: "string \<Rightarrow> int \<Rightarrow> int \<Rightarrow> string" where
  "slice s start fin =
     (let len = int (length s);
          from = (if start < 0 then max (len + start) 0 else min start len);
          to = (if fin < 0 then max (len + fin) 0 else min fin len)
      in take (nat (to - from)) (drop (nat from) s))"


text \<open>
  \<open>String(n)\<close> for an integer \<open>n\<close> that a JavaScript number holds exactly (below 2^53 in
  magnitude): its decimal digits, with a minus sign when negative. \<open>String(b)\<close> for a
  boolean.
\<close>

fun digits :: "nat \<Rightarrow> string" where
  "digits n =
     (if n < 10 then [char_of (48 + n)]
      else digits (n div 10) @ [char_of (48 + n mod 10)])"

definition String_of_int :: "int \<Rightarrow> string" where
  "String_of_int n = (if n < 0 then CHR ''-'' # digits (nat (- n)) else digits (nat n))"

definition String_of_bool :: "bool \<Rightarrow> string" where
  "String_of_bool b = (if b then ''true'' else ''false'')"

section \<open>JSON values and the interfaces of api.ts\<close>

datatype json =
    JNull
  | JBool bool
  | JNum real
  | JStr string
  | JArr "json list"
  | JObj "(string \<times> json) list"









section \<open>SearchEngine\<close>

text \<open>
  Modelled from the spec: the search engine runs in the backend, whose code is not among
  the sources (only its caller \<open>searchDocuments\<close> of api.ts is). The definitions of this
  section follow sections 3 and 4.4 of the specification.
\<close>

text \<open>
  Modelled from the spec: embedding_status is one of pending, indexed, failed (section 3);
  the enumeration is the backend's and is missing from the sources.
\<close>

datatype embedding_status = EmbeddingPending | Indexed | EmbeddingFailed

text \<open>
  Modelled from the spec: matched_signal is one of lexical, semantic, both (section 3,
  SearchHit); missing from the sources.
\<close>

datatype matched_signal = Lexical | Semantic | Both

text \<open>
  Modelled from the spec: the Document of the DocumentStore, with the fields the search
  reads. \<open>stored_created_at\<close> is the creation timestamp.
\<close>

record StoredDocument =
  stored_id :: string
  stored_content :: string
  stored_embedding_status :: embedding_status
  stored_created_at :: nat

text \<open>
  Modelled from the spec: a chunk hit of the VectorIndex, the chunk's key
  (document_id, chunk_index) with its similarity to the query.
\<close>

record ChunkHit =
  chunk_document_id :: string
  chunk_index :: nat
  chunk_score :: real

text \<open>Modelled from the spec: SearchHit (document reference, relevance_score, matched_signal).\<close>

record SearchHit =
  hit_document :: StoredDocument
  hit_relevance_score :: real
  hit_matched_signal :: matched_signal

text \<open>
  Modelled from the spec: the external collaborators of a query. \<open>fts_rank\<close> is the
  structured store's full-text ranking (\<open>None\<close>: the document does not match),
  \<open>embed_oracle\<close> the embedding oracle, \<open>top_chunks\<close> the VectorIndex's top-N similarity query.
\<close>

record 'v SearchBackend =
  store_documents :: "StoredDocument list"
  fts_rank :: "string \<Rightarrow> StoredDocument \<Rightarrow> real option"
  embed_oracle :: "string \<Rightarrow> 'v"
  top_chunks :: "'v \<Rightarrow> ChunkHit list"

text \<open>Modelled from the spec: the DocumentStore's lookup of a document by id.\<close>

definition lookup_document :: "StoredDocument list \<Rightarrow> string \<Rightarrow> StoredDocument option" where
  "lookup_document docs i = find (\<lambda>d. stored_id d = i) docs"

text \<open>
  Modelled from the spec: "aggregates chunk scores per document (maximum chunk score is
  the document's score), deduplicates by document id keeping the best score".
\<close>

fun keep_best :: "string \<Rightarrow> real \<Rightarrow> (string \<times> real) list \<Rightarrow> (string \<times> real) list" where
  "keep_best i s [] = [(i, s)]"
| "keep_best i s ((j, r) # rest) =
     (if i = j then (j, max r s) # rest else (j, r) # keep_best i s rest)"

text \<open>
  Modelled from the spec: the aggregation over the chunk hits the VectorIndex returned,
  one \<open>keep_best\<close> per hit.
\<close>

fun aggregate_chunks :: "ChunkHit list \<Rightarrow> (string \<times> real) list \<Rightarrow> (string \<times> real) list" where
  "aggregate_chunks [] acc = acc"
| "aggregate_chunks (c # cs) acc =
     aggregate_chunks cs (keep_best (chunk_document_id c) (chunk_score c) acc)"

text \<open>
  Modelled from the spec: "score descending, then created_at descending": \<open>a\<close> may stand
  before \<open>b\<close>.
\<close>

definition hit_before :: "SearchHit \<Rightarrow> SearchHit \<Rightarrow> bool" where
  "hit_before a b =
     (hit_relevance_score b < hit_relevance_score a
      \<or> (hit_relevance_score a = hit_relevance_score b
          \<and> stored_created_at (hit_document b) \<le> stored_created_at (hit_document a)))"

text \<open>
  Modelled from the spec: "Results are always returned with a stable total ordering":
  the hits are sorted by insertion under \<open>hit_before\<close>.
\<close>

fun insert_hit :: "SearchHit \<Rightarrow> SearchHit list \<Rightarrow> SearchHit list" where
  "insert_hit h [] = [h]"
| "insert_hit h (x # xs) = (if hit_before h x then h # x # xs else x # insert_hit h xs)"

text \<open>Modelled from the spec: the ordering of a list of hits, by insertion.\<close>

fun sort_hits :: "SearchHit list \<Rightarrow> SearchHit list" where
  "sort_hits [] = []"
| "sort_hits (h # hs) = insert_hit h (sort_hits hs)"

text \<open>
  Modelled from the spec: "Only documents with embedding_status=indexed can appear in
  semantic results". A scored id becomes a hit when the store has the document and the
  document is indexed.
\<close>

definition semantic_hit :: "StoredDocument list \<Rightarrow> string \<times> real \<Rightarrow> SearchHit option" where
  "semantic_hit docs p =
     (case lookup_document docs (fst p) of
        None \<Rightarrow> None
      | Some d \<Rightarrow>
          if stored_embedding_status d = Indexed
          then Some \<lparr>hit_document = d, hit_relevance_score = snd p, hit_matched_signal = Semantic\<rparr>
          else None)"

text \<open>
  Modelled from the spec: lexical mode "scores documents via the structured store's
  full-text ranking": a stored document the ranking scores becomes a hit.
\<close>

definition lexical_hit :: "(string \<Rightarrow> StoredDocument \<Rightarrow> real option) \<Rightarrow> string \<Rightarrow> StoredDocument \<Rightarrow> SearchHit option" where
  "lexical_hit rank query_text d =
     (case rank query_text d of
        None \<Rightarrow> None
      | Some s \<Rightarrow> Some \<lparr>hit_document = d, hit_relevance_score = s, hit_matched_signal = Lexical\<rparr>)"

text \<open>
  Modelled from the spec: the candidates of semantic mode: "embeds the query via the
  embedding oracle, retrieves top-N chunk hits by similarity from VectorIndex, aggregates
  chunk scores per document", keeping the indexed documents.
\<close>

definition semantic_candidates :: "'v SearchBackend \<Rightarrow> string \<Rightarrow> SearchHit list" where
  "semantic_candidates b query_text =
     List.map_filter (semantic_hit (store_documents b))
       (aggregate_chunks (top_chunks b (embed_oracle b query_text)) [])"

text \<open>
  Modelled from the spec: the candidates of lexical mode: the stored documents the
  full-text ranking scores.
\<close>

definition lexical_candidates :: "'v SearchBackend \<Rightarrow> string \<Rightarrow> SearchHit list" where
  "lexical_candidates b query_text =
     List.map_filter (lexical_hit (fts_rank b) query_text) (store_documents b)"

text \<open>
  Modelled from the spec: \<open>Query(text, semantic, limit)\<close>: the candidates of the mode,
  ordered by score descending, then created_at descending, and truncated to \<open>limit\<close>.
\<close>

definition Query :: "'v SearchBackend \<Rightarrow> string \<Rightarrow> bool \<Rightarrow> nat \<Rightarrow> SearchHit list" where
  "Query b query_text semantic n =
     take n (sort_hits (if semantic then semantic_candidates b query_text
                        else lexical_candidates b query_text))"

text \<open>
  Modelled from the spec: the chunk scores of one document among the chunk hits, and
  "maximum chunk score is the document's score".
\<close>

definition scores_of :: "ChunkHit list \<Rightarrow> string \<Rightarrow> real set" where
  "scores_of cs i = chunk_score ` {c \<in> set cs. chunk_document_id c = i}"

text \<open>Modelled from the spec: the maximum chunk score of a document.\<close>

definition best_chunk_score :: "ChunkHit list \<Rightarrow> string \<Rightarrow> real" where
  "best_chunk_score cs i = Max (scores_of cs i)"

section \<open>The Document of the frontend\<close>

text \<open>
  The same \<open>Document\<close> as a record, for the functions that read its fields
  (\<open>id\<close> is \<open>doc_id\<close> here: \<open>id\<close> is the identity function of HOL).
\<close>

record Document =
  doc_id :: string
  url :: string
  title :: string
  author :: "string option"
  published_date :: "string option"
  source_type :: string
  content :: string
  summary :: string
  tags :: "string list"
  read_status :: bool
  created_at :: string
  updated_at :: string
  relevance_score :: "real option"

section \<open>api.ts\<close>

text \<open>
  A \<open>fetch\<close> either rejects (\<open>Inl\<close>, the network error's message) or resolves to a
  response, of which the functions read \<open>ok\<close> and the JSON body.
\<close>

record response =
  ok :: bool
  body :: json

type_synonym fetch = "string \<Rightarrow> string + response"

definition API_BASE :: string where
  "API_BASE = ''/api''"

text \<open>
  \<open>URLSearchParams.toString()\<close>: the application/x-www-form-urlencoded serialiser.
  Letters, digits and \<open>* - . _\<close> stand for themselves, a space is \<open>+\<close>, and every other
  code unit is the percent-encoding of its UTF-8 bytes.
\<close>

definition hex_digit :: "nat \<Rightarrow> char" where
  "hex_digit n = (if n < 10 then char_of (48 + n) else char_of (55 + n))"

definition percent_byte :: "nat \<Rightarrow> string" where
  "percent_byte b = [CHR ''%'', hex_digit (b div 16), hex_digit (b mod 16)]"

definition utf8_bytes :: "char \<Rightarrow> nat list" where
  "utf8_bytes c =
     (let n = (of_char c :: nat)
      in if n < 128 then [n] else [192 + n div 64, 128 + n mod 64])"

definition urlencode_char :: "char \<Rightarrow> string" where
  "urlencode_char c =
     (let n = (of_char c :: nat)
      in if (48 \<le> n \<and> n \<le> 57) \<or> (65 \<le> n \<and> n \<le> 90) \<or> (97 \<le> n \<and> n \<le> 122)
            \<or> n = 42 \<or> n = 45 \<or> n = 46 \<or> n = 95
         then [c]
         else if n = 32 then ''+''
         else concat (map percent_byte (utf8_bytes c)))"

definition urlencode :: "string \<Rightarrow> string" where
  "urlencode s = concat (map urlencode_char s)"

definition URLSearchParams_toString :: "(string \<times> string) list \<Rightarrow> string" where
  "URLSearchParams_toString ps =
     join_str ''&'' (map (\<lambda>(k, v). urlencode k @ ''='' @ urlencode v) ps)"

text \<open>
  The options of \<open>fetchDocuments\<close>: \<open>None\<close> is an option left out (\<open>undefined\<close>).
  \<open>limit\<close> and \<open>offset\<close> are integers (the one caller, \<open>useDocuments\<close>, passes
  \<open>limit: 50\<close>); \<open>opt_tags\<close> and \<open>opt_read_status\<close> are the options \<open>tags\<close> and
  \<open>read_status\<close>, whose names the Document's fields have taken.
\<close>

record fetch_options =
  limit :: "int option"
  offset :: "int option"
  opt_tags :: "string list option"
  opt_read_status :: "bool option"

text \<open>
  Lines 54 to 58. \<open>if (options.limit)\<close> tests truthiness: \<open>undefined\<close> and \<open>0\<close> are
  falsy. \<open>options.tags?.length\<close> is truthy for an array that is there and not empty.
\<close>

definition fetchDocuments_params :: "fetch_options \<Rightarrow> (string \<times> string) list" where
  "fetchDocuments_params options =
     (case limit options of
        Some n \<Rightarrow> if n = 0 then [] else [(''limit'', String_of_int n)]
      | None \<Rightarrow> [])
     @ (case offset options of
          Some n \<Rightarrow> if n = 0 then [] else [(''offset'', String_of_int n)]
        | None \<Rightarrow> [])
     @ (case opt_tags options of
          Some ts \<Rightarrow> if length ts = 0 then [] else [(''tags'', join_str '','' ts)]
        | None \<Rightarrow> [])
     @ (case opt_read_status options of
          Some b \<Rightarrow> [(''read_status'', String_of_bool b)]
        | None \<Rightarrow> [])"

definition fetchDocuments_url :: "fetch_options \<Rightarrow> string" where
  "fetchDocuments_url options =
     API_BASE @ ''/documents?'' @ URLSearchParams_toString (fetchDocuments_params options)"

definition fetchDocuments :: "fetch \<Rightarrow> fetch_options \<Rightarrow> string + json" where
  "fetchDocuments fetch options =
     (case fetch (fetchDocuments_url options) of
        Inl e \<Rightarrow> Inl e
      | Inr r \<Rightarrow> if \<not> ok r then Inl ''Failed to fetch documents'' else Inr (body r))"


text \<open>
  \<open>truncate\<close>, lines 147 to 150. (Declared after the records of this theory, each
  of which brings a \<open>truncate\<close> of its own.)
\<close>

definition truncate :: "string \<Rightarrow> int \<Rightarrow> string" where
  "truncate text maxLength =
     (if int (length text) \<le> maxLength then text
      else trim (slice text 0 maxLength) @ ''...'')"

section \<open>ArticleCard.tsx\<close>




section \<open>ArticleDetail.tsx\<close>

text \<open>
  \<open>handleAddTag\<close> (lines 23 to 29) reads the component's \<open>tagInput\<close> and the article,
  calls \<open>onUpdateTags(article, tags)\<close> or not, and clears the input. The result is the
  call made, if any, and the new \<open>tagInput\<close>.
\<close>

definition handleAddTag :: "Document \<Rightarrow> string \<Rightarrow> (Document \<times> string list) option \<times> string" where
  "handleAddTag article tagInput =
     (let newTag = toLowerCase (trim tagInput)
      in (if newTag \<noteq> [] \<and> newTag \<notin> set (tags article)
          then Some (article, tags article @ [newTag])
          else None,
          ''''))"

text \<open>\<open>handleRemoveTag\<close> (lines 31 to 33): always calls \<open>onUpdateTags\<close>.\<close>

definition handleRemoveTag :: "Document \<Rightarrow> string \<Rightarrow> Document \<times> string list" where
  "handleRemoveTag article tagToRemove =
     (article, filter (\<lambda>t. t \<noteq> tagToRemove) (tags article))"

section \<open>popup.js\<close>

text \<open>
  \<open>saveArticle\<close>, lines 58 to 61: the tags sent in the body of POST /documents, from
  the text of the tags input.
\<close>

definition saveArticle_tags :: "string \<Rightarrow> string list" where
  "saveArticle_tags tagsInput_value =
     filter (\<lambda>t. length t > 0)
       (map (\<lambda>t. toLowerCase (trim t)) (split_str CHR '','' tagsInput_value))"

section \<open>The claimed behaviour of truncate\<close>

text \<open>
  The specification's wording of \<open>truncate\<close>, to compare with the function of api.ts:
  "the first maxLength characters with trailing whitespace trimmed followed by ...".
\<close>

definition truncate_claimed :: "string \<Rightarrow> int \<Rightarrow> string" where
  "truncate_claimed text maxLength =
     (if int (length text) \<le> maxLength then text
      else trimEnd (slice text 0 maxLength) @ ''...'')"

section \<open>Example data\<close>

text \<open>Concrete inputs on which the theorems below are instantiated.\<close>

definition example_article :: Document where
  "example_article =
     \<lparr>doc_id = ''42'', url = ''https://a.com/x'', title = ''X'', author = None,
      published_date = None, source_type = ''web_article'', content = ''Some text.'',
      summary = ''Generating summary...'', tags = [''ai'', ''news''], read_status = False,
      created_at = ''2024-01-01T00:00:00'', updated_at = ''2024-01-01T00:00:00'',
      relevance_score = None\<rparr>"






definition example_backend :: "string SearchBackend" where
  "example_backend =
     \<lparr>store_documents =
        [\<lparr>stored_id = ''a'', stored_content = ''alpha'',
          stored_embedding_status = Indexed, stored_created_at = 1\<rparr>,
         \<lparr>stored_id = ''b'', stored_content = ''beta'',
          stored_embedding_status = EmbeddingPending, stored_created_at = 2\<rparr>,
         \<lparr>stored_id = ''c'', stored_content = ''gamma'',
          stored_embedding_status = Indexed, stored_created_at = 3\<rparr>],
      fts_rank = (\<lambda>q d. None),
      embed_oracle = (\<lambda>q. q),
      top_chunks = (\<lambda>v.
        [\<lparr>chunk_document_id = ''a'', chunk_index = 0, chunk_score = 1\<rparr>,
         \<lparr>chunk_document_id = ''b'', chunk_index = 0, chunk_score = 9\<rparr>,
         \<lparr>chunk_document_id = ''c'', chunk_index = 0, chunk_score = 5\<rparr>,
         \<lparr>chunk_document_id = ''a'', chunk_index = 1, chunk_score = 5\<rparr>])\<rparr>"

section \<open>Properties of the string functions\<close>

lemma slice_from_0: "0 \<le> m \<Longrightarrow> slice s 0 m = take (nat m) s"
  by (auto simp: slice_def Let_def min_def)

lemma length_trimStart_le: "length (trimStart s) \<le> length s"
  by (simp add: trimStart_def length_dropWhile_le)

lemma length_trimEnd_le: "length (trimEnd s) \<le> length s"
  using length_dropWhile_le [of isWhiteSpace "rev s"] by (simp add: trimEnd_def)

lemma length_trim_le: "length (trim s) \<le> length s"
  using length_trimEnd_le [of "trimStart s"] length_trimStart_le [of s]
  by (simp add: trim_def)

text \<open>What \<open>trim\<close> removes is whitespace, at both ends, and nothing more can go.\<close>

lemma trimStart_decomp: "\<exists>pre. s = pre @ trimStart s \<and> list_all isWhiteSpace pre"
proof -
  have "s = takeWhile isWhiteSpace s @ trimStart s"
    by (simp add: trimStart_def)
  moreover have "list_all isWhiteSpace (takeWhile isWhiteSpace s)"
    by (simp add: list_all_iff) (meson set_takeWhileD)
  ultimately show ?thesis by blast
qed

lemma trimEnd_decomp: "\<exists>suf. s = trimEnd s @ suf \<and> list_all isWhiteSpace suf"
proof -
  have "rev s = takeWhile isWhiteSpace (rev s) @ dropWhile isWhiteSpace (rev s)"
    by simp
  then have "s = rev (dropWhile isWhiteSpace (rev s)) @ rev (takeWhile isWhiteSpace (rev s))"
    by (metis rev_append rev_rev_ident)
  moreover have "list_all isWhiteSpace (rev (takeWhile isWhiteSpace (rev s)))"
    by (simp add: list_all_iff) (meson set_takeWhileD)
  ultimately show ?thesis unfolding trimEnd_def by blast
qed

lemma trim_decomp:
  "\<exists>pre suf. s = pre @ trim s @ suf \<and> list_all isWhiteSpace pre \<and> list_all isWhiteSpace suf"
proof -
  obtain pre where p: "s = pre @ trimStart s" "list_all isWhiteSpace pre"
    using trimStart_decomp by blast
  obtain suf where q: "trimStart s = trimEnd (trimStart s) @ suf" "list_all isWhiteSpace suf"
    using trimEnd_decomp by blast
  have "s = pre @ trim s @ suf" using p(1) q(1) by (simp add: trim_def)
  then show ?thesis using p(2) q(2) by blast
qed

lemma trimStart_hd: "trimStart s \<noteq> [] \<Longrightarrow> \<not> isWhiteSpace (hd (trimStart s))"
  unfolding trimStart_def by (rule hd_dropWhile)

lemma trimEnd_last: "trimEnd s \<noteq> [] \<Longrightarrow> \<not> isWhiteSpace (last (trimEnd s))"
  unfolding trimEnd_def by (simp add: last_rev hd_dropWhile)

lemma trimEnd_hd: "trimEnd s \<noteq> [] \<Longrightarrow> hd (trimEnd s) = hd s"
  using trimEnd_decomp [of s] by (metis hd_append2)

lemma trim_ends:
  "trim s \<noteq> [] \<Longrightarrow> \<not> isWhiteSpace (hd (trim s)) \<and> \<not> isWhiteSpace (last (trim s))"
  unfolding trim_def
  by (metis trimEnd_hd trimEnd_last trimStart_hd trimEnd_def rev.simps(1) dropWhile.simps(1))

lemma trimStart_id: "s = [] \<or> \<not> isWhiteSpace (hd s) \<Longrightarrow> trimStart s = s"
  by (cases s) (auto simp: trimStart_def)

lemma trimEnd_id: "s = [] \<or> \<not> isWhiteSpace (last s) \<Longrightarrow> trimEnd s = s"
  using trimStart_id [of "rev s"] by (cases "s = []") (auto simp: trimEnd_def trimStart_def hd_rev)

lemma trim_idem: "trim (trim s) = trim s"
proof (cases "trim s = []")
  case True
  have "trim [] = []" by (simp add: trim_def trimStart_def trimEnd_def)
  then show ?thesis using True by simp
next
  case False
  then have e: "\<not> isWhiteSpace (hd (trim s))" "\<not> isWhiteSpace (last (trim s))"
    using trim_ends by blast+
  have "trimStart (trim s) = trim s" using e(1) by (simp add: trimStart_id)
  moreover have "trimEnd (trim s) = trim s" using e(2) by (simp add: trimEnd_id)
  ultimately show ?thesis by (simp add: trim_def [of "trim s"])
qed

lemma toLowerChar_idem: "toLowerChar (toLowerChar c) = toLowerChar c"
  by (auto simp: toLowerChar_def Let_def)

lemma isWhiteSpace_toLowerChar: "isWhiteSpace (toLowerChar c) = isWhiteSpace c"
  by (auto simp: toLowerChar_def isWhiteSpace_def Let_def)

lemma toLowerCase_idem: "toLowerCase (toLowerCase s) = toLowerCase s"
  by (simp add: toLowerCase_def toLowerChar_idem)

lemma trimStart_toLowerCase: "trimStart (toLowerCase s) = toLowerCase (trimStart s)"
  by (simp add: trimStart_def toLowerCase_def dropWhile_map comp_def isWhiteSpace_toLowerChar)

lemma trimEnd_toLowerCase: "trimEnd (toLowerCase s) = toLowerCase (trimEnd s)"
  by (simp add: trimEnd_def toLowerCase_def dropWhile_map comp_def isWhiteSpace_toLowerChar
      rev_map)

lemma trim_toLowerCase: "trim (toLowerCase s) = toLowerCase (trim s)"
  by (simp add: trim_def trimStart_toLowerCase trimEnd_toLowerCase)


section \<open>Tags\<close>

text \<open>
  What holds of the tags the popup sends: each is a piece of the input between commas,
  trimmed and lower-cased, and none is empty.
\<close>

lemma saveArticle_tags_normalized:
  assumes "t \<in> set (saveArticle_tags v)"
  shows "t \<noteq> [] \<and> trim t = t \<and> toLowerCase t = t
         \<and> (\<exists>piece \<in> set (split_str CHR '','' v). t = toLowerCase (trim piece))"
proof -
  obtain piece where p: "piece \<in> set (split_str CHR '','' v)" "t = toLowerCase (trim piece)"
    and ne: "t \<noteq> []"
    using assms by (auto simp: saveArticle_tags_def)
  have "trim t = t" using p(2) by (simp add: trim_toLowerCase trim_idem)
  moreover have "toLowerCase t = t" using p(2) by (simp add: toLowerCase_idem)
  ultimately show ?thesis using p ne by blast
qed

text \<open>The add-tag action of ArticleDetail keeps a duplicate-free tag list duplicate-free.\<close>

lemma handleAddTag_distinct:
  assumes "distinct (tags article)" and "fst (handleAddTag article tagInput) = Some (a, ts)"
  shows "distinct ts"
  using assms by (auto simp: handleAddTag_def Let_def split: if_splits)

text \<open>
  C1: the tag list produced before submission is normalized: trimmed, lower-cased, without
  empty entries and without duplicates. The popup's \<open>saveArticle\<close> does not remove
  duplicates: on the input of the specification's own example it sends \<open>ai\<close> twice.
\<close>

theorem saveArticle_tags_duplicate:
  "saveArticle_tags ''  AI, Machine-Learning , ai '' = [''ai'', ''machine-learning'', ''ai'']
   \<and> \<not> distinct (saveArticle_tags ''  AI, Machine-Learning , ai '')"
  by code_simp

text \<open>
  C8: the add-tag action of ArticleDetail is idempotent on the tag set. When the trimmed,
  lower-cased input is empty or already among the article's tags, no update is issued;
  otherwise the update appends exactly that tag; and once the tag is there, the same
  input issues no update. The input field is cleared in every case.
\<close>

theorem handleAddTag_idempotent:
  "(toLowerCase (trim tagInput) = [] \<or> toLowerCase (trim tagInput) \<in> set (tags article)
      \<longrightarrow> handleAddTag article tagInput = (None, ''''))
   \<and> (toLowerCase (trim tagInput) \<noteq> [] \<and> toLowerCase (trim tagInput) \<notin> set (tags article)
      \<longrightarrow> handleAddTag article tagInput
           = (Some (article, tags article @ [toLowerCase (trim tagInput)]), ''''))
   \<and> handleAddTag (article\<lparr>tags := tags article @ [toLowerCase (trim tagInput)]\<rparr>) tagInput
       = (None, '''')"
  by (auto simp: handleAddTag_def Let_def)

theorem handleAddTag_idempotent_witness:
  "toLowerCase (trim '' AI '') \<in> set (tags example_article)
   \<and> handleAddTag example_article '' AI '' = (None, '''')
   \<and> toLowerCase (trim '' Rust '') \<noteq> []
   \<and> toLowerCase (trim '' Rust '') \<notin> set (tags example_article)
   \<and> handleAddTag example_article '' Rust ''
       = (Some (example_article, [''ai'', ''news'', ''rust'']), '''')
   \<and> handleAddTag (example_article\<lparr>tags := [''ai'', ''news'', ''rust'']\<rparr>) '' Rust ''
       = (None, '''')"
proof -
  have a: "toLowerCase (trim '' AI '') = ''ai''" by code_simp
  have r: "toLowerCase (trim '' Rust '') = ''rust''" by code_simp
  have t: "tags example_article = [''ai'', ''news'']" by (simp add: example_article_def)
  show ?thesis
    using handleAddTag_idempotent [of "'' AI ''" example_article]
      handleAddTag_idempotent [of "'' Rust ''" example_article]
    by (simp add: a r t)
qed

section \<open>truncate\<close>

text \<open>
  C9, as the code has it: for a natural number \<open>maxLength\<close>, \<open>truncate\<close> returns the text
  unchanged when its length is at most \<open>maxLength\<close>; otherwise it returns the first
  \<open>maxLength\<close> characters with the whitespace at both ends trimmed, followed by three
  dots. The result is at most \<open>maxLength + 3\<close> long, and it ends with three dots whenever
  truncation occurred (an untruncated text may end with them as well).
\<close>

theorem truncate_amended:
  assumes "0 \<le> maxLength"
  shows "(int (length text) \<le> maxLength \<longrightarrow> truncate text maxLength = text)
       \<and> (maxLength < int (length text) \<longrightarrow>
            truncate text maxLength = trimEnd (trimStart (take (nat maxLength) text)) @ ''...'')
       \<and> length (truncate text maxLength) \<le> nat maxLength + 3
       \<and> (maxLength < int (length text) \<longrightarrow> suffix ''...'' (truncate text maxLength))"
proof -
  have a: "int (length text) \<le> maxLength \<Longrightarrow> truncate text maxLength = text"
    by (simp add: truncate_def)
  have b: "truncate text maxLength = trimEnd (trimStart (take (nat maxLength) text)) @ ''...''"
    if "maxLength < int (length text)"
    using that assms by (simp add: truncate_def slice_from_0 trim_def)
  have "length (trim (take (nat maxLength) text)) \<le> nat maxLength"
    using length_trim_le [of "take (nat maxLength) text"] by simp
  then have c: "length (truncate text maxLength) \<le> nat maxLength + 3"
    using assms by (auto simp: truncate_def slice_from_0)
  have d: "suffix ''...'' (truncate text maxLength)" if "maxLength < int (length text)"
    using b [OF that] by (simp add: suffix_def)
  show ?thesis using a b c d by blast
qed

theorem truncate_amended_witness:
  "(0::int) \<le> 3 \<and> (3::int) < int (length '' a b c'')
   \<and> truncate '' a b c'' 3 = ''a...''
   \<and> length (truncate '' a b c'' 3) \<le> nat 3 + 3
   \<and> suffix ''...'' (truncate '' a b c'' 3)
   \<and> int (length ''ab'') \<le> 3 \<and> truncate ''ab'' 3 = ''ab''"
proof -
  have h: "(0::int) \<le> 3" by simp
  have t: "trimEnd (trimStart (take (nat 3) '' a b c'')) @ ''...'' = ''a...''"
    by code_simp
  show ?thesis
    using truncate_amended [OF h, of "'' a b c''"] truncate_amended [OF h, of "''ab''"] t
    by auto
qed

text \<open>
  C9 as stated fails twice. The text \<open>'' a b c''\<close> cut at 3 loses its leading blank too:
  the code returns \<open>''a...''\<close> where the claim has \<open>'' a...''\<close>. And \<open>''abc...''\<close>, six
  characters long, is returned unchanged at \<open>maxLength = 10\<close> and ends with three dots
  though nothing was truncated.
\<close>

theorem truncate_claim_counterexample:
  "truncate '' a b c'' 3 = ''a...''
   \<and> truncate_claimed '' a b c'' 3 = '' a...''
   \<and> truncate '' a b c'' 3 \<noteq> truncate_claimed '' a b c'' 3
   \<and> int (length ''abc...'') \<le> 10
   \<and> truncate ''abc...'' 10 = ''abc...''
   \<and> suffix ''...'' (truncate ''abc...'' 10)"
  by code_simp

section \<open>fetchDocuments\<close>



section \<open>The interfaces of api.ts\<close>


















section \<open>SearchEngine: ordering and aggregation\<close>

lemma hit_before_total: "hit_before a b \<or> hit_before b a"
  by (auto simp: hit_before_def)

lemma hit_before_trans: "hit_before a b \<Longrightarrow> hit_before b c \<Longrightarrow> hit_before a c"
  by (auto simp: hit_before_def)

lemma set_insert_hit: "set (insert_hit h xs) = insert h (set xs)"
  by (induction xs) auto

lemma set_sort_hits: "set (sort_hits hs) = set hs"
  by (induction hs) (auto simp: set_insert_hit)

lemma sorted_insert_hit:
  "sorted_wrt hit_before xs \<Longrightarrow> sorted_wrt hit_before (insert_hit h xs)"
proof (induction xs)
  case Nil
  then show ?case by simp
next
  case (Cons x xs)
  show ?case
  proof (cases "hit_before h x")
    case True
    then have "\<forall>y\<in>set xs. hit_before h y"
      using Cons.prems hit_before_trans by auto
    then show ?thesis using True Cons.prems by simp
  next
    case False
    then have "hit_before x h" using hit_before_total by blast
    then show ?thesis using False Cons by (auto simp: set_insert_hit)
  qed
qed

lemma sorted_sort_hits: "sorted_wrt hit_before (sort_hits hs)"
  by (induction hs) (auto simp: sorted_insert_hit)

lemma distinct_map_insert_hit:
  "distinct (map f (insert_hit h xs)) = distinct (map f (h # xs))"
  by (induction xs) (auto simp: set_insert_hit)

lemma distinct_map_sort_hits: "distinct (map f (sort_hits hs)) = distinct (map f hs)"
  by (induction hs) (auto simp: distinct_map_insert_hit set_sort_hits)

lemma keys_keep_best: "set (map fst (keep_best i s acc)) = insert i (set (map fst acc))"
  by (induction i s acc rule: keep_best.induct) auto

lemma distinct_keep_best:
  "distinct (map fst acc) \<Longrightarrow> distinct (map fst (keep_best i s acc))"
proof (induction acc)
  case Nil
  then show ?case by simp
next
  case (Cons p acc)
  obtain j r where p: "p = (j, r)" by (cases p)
  show ?case using Cons keys_keep_best [of i s acc] by (auto simp: p)
qed

lemma map_of_keep_best:
  "map_of (keep_best i s acc) k =
     (if k = i then Some (case map_of acc i of None \<Rightarrow> s | Some r \<Rightarrow> max r s)
      else map_of acc k)"
  by (induction i s acc rule: keep_best.induct) auto

lemma distinct_aggregate_chunks:
  "distinct (map fst acc) \<Longrightarrow> distinct (map fst (aggregate_chunks cs acc))"
  by (induction cs arbitrary: acc) (auto simp: distinct_keep_best)

lemma scores_of_Cons:
  "scores_of (c # cs) k =
     (if chunk_document_id c = k then insert (chunk_score c) (scores_of cs k) else scores_of cs k)"
  by (auto simp: scores_of_def)

lemma finite_scores_of: "finite (scores_of cs k)"
  by (simp add: scores_of_def)

text \<open>
  What the aggregation holds for a document: the maximum of what the accumulator had and
  of the scores of the document's chunk hits.
\<close>

lemma map_of_aggregate_chunks:
  "map_of (aggregate_chunks cs acc) k =
     (case map_of acc k of
        None \<Rightarrow> if scores_of cs k = {} then None else Some (Max (scores_of cs k))
      | Some r \<Rightarrow> Some (Max (insert r (scores_of cs k))))"
proof (induction cs arbitrary: acc)
  case Nil
  then show ?case by (auto simp: scores_of_def split: option.splits)
next
  case (Cons c cs)
  let ?acc = "keep_best (chunk_document_id c) (chunk_score c) acc"
  show ?case
  proof (cases "chunk_document_id c = k")
    case False
    then have "map_of ?acc k = map_of acc k" by (simp add: map_of_keep_best)
    moreover have "scores_of (c # cs) k = scores_of cs k"
      using False by (simp add: scores_of_Cons)
    ultimately show ?thesis using Cons.IH [of ?acc] by (simp split: option.splits)
  next
    case True
    have fin: "finite (scores_of cs k)" by (rule finite_scores_of)
    show ?thesis
    proof (cases "map_of acc k")
      case None
      then have "map_of ?acc k = Some (chunk_score c)"
        using True by (simp add: map_of_keep_best)
      then show ?thesis using True None Cons.IH [of ?acc] by (simp add: scores_of_Cons)
    next
      case (Some r)
      then have m: "map_of ?acc k = Some (max r (chunk_score c))"
        using True by (simp add: map_of_keep_best)
      have "Max (insert (max r (chunk_score c)) (scores_of cs k))
            = Max (insert r (insert (chunk_score c) (scores_of cs k)))"
        using fin by (cases "scores_of cs k = {}") (auto simp: max.assoc)
      then show ?thesis using True Some m Cons.IH [of ?acc] by (simp add: scores_of_Cons)
    qed
  qed
qed

lemma aggregate_chunks_best:
  assumes "(i, s) \<in> set (aggregate_chunks cs [])"
  shows "s = best_chunk_score cs i"
proof -
  have "distinct (map fst (aggregate_chunks cs []))"
    by (rule distinct_aggregate_chunks) simp
  then have "map_of (aggregate_chunks cs []) i = Some s"
    using assms by simp
  then show ?thesis
    by (auto simp: map_of_aggregate_chunks best_chunk_score_def split: if_splits)
qed

lemma lookup_document_id:
  "lookup_document docs i = Some d \<Longrightarrow> stored_id d = i \<and> d \<in> set docs"
  by (auto simp: lookup_document_def find_Some_iff)

lemma lookup_document_distinct:
  "distinct (map stored_id docs) \<Longrightarrow> d \<in> set docs \<Longrightarrow>
   lookup_document docs (stored_id d) = Some d"
proof (induction docs)
  case Nil
  then show ?case by simp
next
  case (Cons x xs)
  then show ?case by (auto simp: lookup_document_def)
qed

lemma semantic_hit_Some:
  assumes "semantic_hit docs p = Some h"
  shows "stored_id (hit_document h) = fst p \<and> hit_relevance_score h = snd p
         \<and> stored_embedding_status (hit_document h) = Indexed
         \<and> lookup_document docs (fst p) = Some (hit_document h)
         \<and> hit_matched_signal h = Semantic"
  using assms lookup_document_id [of docs "fst p"]
  by (auto simp: semantic_hit_def split: option.splits if_splits)

lemma set_map_filter_iff: "h \<in> set (List.map_filter f xs) = (\<exists>x\<in>set xs. f x = Some h)"
  by (induction xs) (auto split: option.splits)

lemma distinct_semantic_hits:
  "distinct (map fst ps) \<Longrightarrow>
   distinct (map (\<lambda>h. stored_id (hit_document h)) (List.map_filter (semantic_hit docs) ps))"
proof (induction ps)
  case Nil
  then show ?case by simp
next
  case (Cons p ps)
  show ?case
  proof (cases "semantic_hit docs p")
    case None
    then show ?thesis using Cons by simp
  next
    case (Some h)
    have "stored_id (hit_document h) \<noteq> stored_id (hit_document h')"
      if mem: "h' \<in> set (List.map_filter (semantic_hit docs) ps)" for h'
    proof -
      obtain q where q: "q \<in> set ps" "semantic_hit docs q = Some h'"
        using mem unfolding set_map_filter_iff by blast
      have "fst q \<in> fst ` set ps" using q(1) by (rule imageI)
      moreover have "fst p \<notin> fst ` set ps" using Cons.prems by simp
      ultimately have "fst q \<noteq> fst p" by metis
      then show ?thesis using semantic_hit_Some [OF Some] semantic_hit_Some [OF q(2)] by simp
    qed
    then show ?thesis using Some Cons by auto
  qed
qed

lemma Query_semantic: "Query b q True n = take n (sort_hits (semantic_candidates b q))"
  by (simp add: Query_def)

lemma semantic_candidate_props:
  assumes "h \<in> set (semantic_candidates b q)"
  shows "stored_embedding_status (hit_document h) = Indexed"
    and "hit_relevance_score h
         = best_chunk_score (top_chunks b (embed_oracle b q)) (stored_id (hit_document h))"
    and "lookup_document (store_documents b) (stored_id (hit_document h)) = Some (hit_document h)"
proof -
  obtain p where p: "p \<in> set (aggregate_chunks (top_chunks b (embed_oracle b q)) [])"
    "semantic_hit (store_documents b) p = Some h"
    using assms unfolding semantic_candidates_def set_map_filter_iff by blast
  note s = semantic_hit_Some [OF p(2)]
  show "stored_embedding_status (hit_document h) = Indexed" using s by simp
  have "snd p = best_chunk_score (top_chunks b (embed_oracle b q)) (fst p)"
    using aggregate_chunks_best [of "fst p" "snd p"] p(1) by simp
  then show "hit_relevance_score h
         = best_chunk_score (top_chunks b (embed_oracle b q)) (stored_id (hit_document h))"
    using s by simp
  show "lookup_document (store_documents b) (stored_id (hit_document h)) = Some (hit_document h)"
    using s by simp
qed

lemma Query_subset: "set (Query b q True n) \<subseteq> set (semantic_candidates b q)"
  using set_take_subset [of n "sort_hits (semantic_candidates b q)"]
  by (simp add: Query_semantic set_sort_hits)

lemma example_query:
  "Query example_backend ''q'' True 2 =
     [\<lparr>hit_document = \<lparr>stored_id = ''c'', stored_content = ''gamma'',
                       stored_embedding_status = Indexed, stored_created_at = 3\<rparr>,
       hit_relevance_score = 5, hit_matched_signal = Semantic\<rparr>,
      \<lparr>hit_document = \<lparr>stored_id = ''a'', stored_content = ''alpha'',
                       stored_embedding_status = Indexed, stored_created_at = 1\<rparr>,
       hit_relevance_score = 5, hit_matched_signal = Semantic\<rparr>]"
  by (simp add: example_backend_def Query_def semantic_candidates_def semantic_hit_def
      lookup_document_def hit_before_def)

text \<open>
  C4: in semantic mode every hit is a document whose embedding status is indexed; with
  ids unique in the store, a stored document of another status is not among the results,
  whatever its chunk hits score.
\<close>

theorem semantic_results_indexed:
  "(\<forall>h \<in> set (Query b q True n). stored_embedding_status (hit_document h) = Indexed)
   \<and> (distinct (map stored_id (store_documents b)) \<longrightarrow>
        (\<forall>d \<in> set (store_documents b). stored_embedding_status d \<noteq> Indexed \<longrightarrow>
           stored_id d \<notin> set (map (\<lambda>h. stored_id (hit_document h)) (Query b q True n))))"
proof (intro conjI impI ballI)
  fix h assume "h \<in> set (Query b q True n)"
  then show "stored_embedding_status (hit_document h) = Indexed"
    using Query_subset semantic_candidate_props(1) by blast
next
  fix d
  assume dist: "distinct (map stored_id (store_documents b))"
    and d: "d \<in> set (store_documents b)" "stored_embedding_status d \<noteq> Indexed"
  show "stored_id d \<notin> set (map (\<lambda>h. stored_id (hit_document h)) (Query b q True n))"
  proof
    assume "stored_id d \<in> set (map (\<lambda>h. stored_id (hit_document h)) (Query b q True n))"
    then obtain h where h: "h \<in> set (Query b q True n)" "stored_id (hit_document h) = stored_id d"
      by auto
    then have c: "h \<in> set (semantic_candidates b q)" using Query_subset by blast
    have "lookup_document (store_documents b) (stored_id d) = Some (hit_document h)"
      using semantic_candidate_props(3) [OF c] h(2) by simp
    then have "hit_document h = d" using lookup_document_distinct [OF dist d(1)] by simp
    then show False using semantic_candidate_props(1) [OF c] d(2) by simp
  qed
qed

theorem semantic_results_indexed_witness:
  "distinct (map stored_id (store_documents example_backend))
   \<and> \<lparr>stored_id = ''b'', stored_content = ''beta'',
       stored_embedding_status = EmbeddingPending, stored_created_at = 2\<rparr>
       \<in> set (store_documents example_backend)
   \<and> \<lparr>chunk_document_id = ''b'', chunk_index = 0, chunk_score = 9\<rparr>
       \<in> set (top_chunks example_backend (embed_oracle example_backend ''q''))
   \<and> ''b'' \<notin> set (map (\<lambda>h. stored_id (hit_document h)) (Query example_backend ''q'' True 2))
   \<and> Query example_backend ''q'' True 2 \<noteq> []
   \<and> list_all (\<lambda>h. stored_embedding_status (hit_document h) = Indexed)
        (Query example_backend ''q'' True 2)"
proof -
  let ?d = "\<lparr>stored_id = ''b'', stored_content = ''beta'',
       stored_embedding_status = EmbeddingPending, stored_created_at = 2\<rparr>"
  note t = semantic_results_indexed [of example_backend "''q''" 2]
  have a: "distinct (map stored_id (store_documents example_backend))"
    by (simp add: example_backend_def)
  have b: "?d \<in> set (store_documents example_backend)"
    by (simp add: example_backend_def)
  have c: "\<lparr>chunk_document_id = ''b'', chunk_index = 0, chunk_score = 9\<rparr>
       \<in> set (top_chunks example_backend (embed_oracle example_backend ''q''))"
    by (simp add: example_backend_def)
  have s: "stored_embedding_status ?d \<noteq> Indexed" by simp
  from t a b s have "stored_id ?d
      \<notin> set (map (\<lambda>h. stored_id (hit_document h)) (Query example_backend ''q'' True 2))"
    by blast
  then have e: "''b''
      \<notin> set (map (\<lambda>h. stored_id (hit_document h)) (Query example_backend ''q'' True 2))"
    by simp
  have f: "Query example_backend ''q'' True 2 \<noteq> []" by (simp add: example_query)
  from t have g: "list_all (\<lambda>h. stored_embedding_status (hit_document h) = Indexed)
        (Query example_backend ''q'' True 2)"
    unfolding list_all_iff by blast
  show ?thesis using a b c e f g by blast
qed

text \<open>
  C5: in either mode the hits of a query are ordered by score descending, ties by
  created_at descending, an order in which any two hits compare; there are at most
  \<open>limit\<close> of them, the first of the untruncated order. In semantic mode no document
  occurs twice, and the score of a hit is the maximum of the scores of its document's
  chunk hits.
\<close>

theorem Query_ordered:
  "sorted_wrt hit_before (Query b q semantic n)
   \<and> (\<forall>x y. hit_before x y \<or> hit_before y x)
   \<and> (\<forall>x y. hit_before x y
        = (hit_relevance_score y < hit_relevance_score x
           \<or> (hit_relevance_score x = hit_relevance_score y
               \<and> stored_created_at (hit_document y) \<le> stored_created_at (hit_document x))))
   \<and> length (Query b q semantic n) \<le> n
   \<and> Query b q semantic n = take n (Query b q semantic (n + m))
   \<and> distinct (map (\<lambda>h. stored_id (hit_document h)) (Query b q True n))
   \<and> (\<forall>h \<in> set (Query b q True n).
         hit_relevance_score h
         = best_chunk_score (top_chunks b (embed_oracle b q)) (stored_id (hit_document h)))"
proof (intro conjI ballI allI)
  show "sorted_wrt hit_before (Query b q semantic n)"
    by (simp add: Query_def sorted_sort_hits)
  show "hit_before x y \<or> hit_before y x" for x y by (rule hit_before_total)
  show "hit_before x y
        = (hit_relevance_score y < hit_relevance_score x
           \<or> (hit_relevance_score x = hit_relevance_score y
               \<and> stored_created_at (hit_document y) \<le> stored_created_at (hit_document x)))"
    for x y
    by (simp add: hit_before_def)
  show "length (Query b q semantic n) \<le> n" by (simp add: Query_def)
  show "Query b q semantic n = take n (Query b q semantic (n + m))"
    by (simp add: Query_def min_def)
  have "distinct (map fst (aggregate_chunks (top_chunks b (embed_oracle b q)) []))"
    by (rule distinct_aggregate_chunks) simp
  then have "distinct (map (\<lambda>h. stored_id (hit_document h)) (semantic_candidates b q))"
    unfolding semantic_candidates_def by (rule distinct_semantic_hits)
  then have "distinct (map (\<lambda>h. stored_id (hit_document h)) (sort_hits (semantic_candidates b q)))"
    by (simp add: distinct_map_sort_hits)
  then show "distinct (map (\<lambda>h. stored_id (hit_document h)) (Query b q True n))"
    by (simp add: Query_semantic take_map [symmetric])
next
  fix h assume "h \<in> set (Query b q True n)"
  then show "hit_relevance_score h
         = best_chunk_score (top_chunks b (embed_oracle b q)) (stored_id (hit_document h))"
    using Query_subset semantic_candidate_props(2) by blast
qed

theorem Query_ordered_witness:
  "map (\<lambda>h. (stored_id (hit_document h), hit_relevance_score h))
       (Query example_backend ''q'' True 2) = [(''c'', 5), (''a'', 5)]
   \<and> sorted_wrt hit_before (Query example_backend ''q'' True 2)
   \<and> length (Query example_backend ''q'' True 2) \<le> 2
   \<and> Query example_backend ''q'' True 2 = take 2 (Query example_backend ''q'' True (2 + 1))
   \<and> distinct (map (\<lambda>h. stored_id (hit_document h)) (Query example_backend ''q'' True 2))
   \<and> list_all (\<lambda>h. hit_relevance_score h
          = best_chunk_score (top_chunks example_backend (embed_oracle example_backend ''q''))
              (stored_id (hit_document h)))
        (Query example_backend ''q'' True 2)"
proof -
  note t = Query_ordered [of example_backend "''q''" True 2 1]
  have a: "map (\<lambda>h. (stored_id (hit_document h), hit_relevance_score h))
       (Query example_backend ''q'' True 2) = [(''c'', 5), (''a'', 5)]"
    by (simp add: example_query)
  from t have b: "sorted_wrt hit_before (Query example_backend ''q'' True 2)" by blast
  from t have c: "length (Query example_backend ''q'' True 2) \<le> 2" by blast
  from t have d: "Query example_backend ''q'' True 2
      = take 2 (Query example_backend ''q'' True (2 + 1))"
    by blast
  from t have e: "distinct (map (\<lambda>h. stored_id (hit_document h))
      (Query example_backend ''q'' True 2))"
    by blast
  from t have f: "list_all (\<lambda>h. hit_relevance_score h
          = best_chunk_score (top_chunks example_backend (embed_oracle example_backend ''q''))
              (stored_id (hit_document h)))
        (Query example_backend ''q'' True 2)"
    unfolding list_all_iff by blast
  show ?thesis using a b c d e f by blast
qed

end
